theory Spec2Isabelle
  imports Main
begin

section \<open>The search overlay (SearchDropdown.tsx) as a state machine\<close>

text \<open>
  The component keeps four pieces of React state (\<open>query\<close>, \<open>loading\<close>, \<open>results\<close>,
  \<open>error\<close>), one ref (\<open>debounceTimeout\<close>) and receives the props \<open>open\<close> and \<open>onClose\<close>.
  The model is an explicit state record, one function per effect, handler and callback of
  the source, and a total step function over the events the environment can deliver
  (input changes, prop changes, the passing of time, responses of the search service,
  key presses and clicks). Calls into the outside world (HTTP requests, \<open>onClose\<close>,
  \<open>navigate\<close>, \<open>focus\<close>) are recorded in one log, in the order they are made.

  Strings are \<open>string\<close>; a character stands for the UTF-16 code unit of the same number,
  so the model covers the queries whose code units are below 256. For these
  \<open>encodeURIComponent\<close> never throws (it throws only on a lone surrogate).
\<close>

subsection \<open>Strings: \<open>trim\<close> and \<open>encodeURIComponent\<close>\<close>

definition is_space :: "char \<Rightarrow> bool" where
  \<comment> \<open>White space and line terminators of ECMAScript among the code units below 256:
      TAB, LF, VT, FF, CR, SP, NBSP.\<close>
  "is_space c = (of_char c \<in> {9, 10, 11, 12, 13, 32, 160 :: nat})"

definition trim :: "string \<Rightarrow> string" where
  "trim s = rev (dropWhile is_space (rev (dropWhile is_space s)))"

definition unreserved :: "char \<Rightarrow> bool" where
  \<comment> \<open>The characters \<open>encodeURIComponent\<close> leaves alone: letters, digits and \<open>- _ . ! ~ * ' ( )\<close>.\<close>
  "unreserved c =
     (let n = (of_char c :: nat) in
      (65 \<le> n \<and> n \<le> 90) \<or> (97 \<le> n \<and> n \<le> 122) \<or> (48 \<le> n \<and> n \<le> 57) \<or>
      n \<in> {45, 95, 46, 33, 126, 42, 39, 40, 41})"

definition hex_digit :: "nat \<Rightarrow> char" where
  "hex_digit n = ''0123456789ABCDEF'' ! (n mod 16)"

definition percent :: "nat \<Rightarrow> string" where
  "percent b = [CHR ''%'', hex_digit (b div 16), hex_digit (b mod 16)]"

definition utf8 :: "nat \<Rightarrow> nat list" where
  \<comment> \<open>The UTF-8 bytes of a code point below 256.\<close>
  "utf8 u = (if u < 128 then [u] else [192 + u div 64, 128 + u mod 64])"

definition encodeURIComponent :: "string \<Rightarrow> string" where
  "encodeURIComponent s =
     concat (map (\<lambda>c. if unreserved c then [c] else concat (map percent (utf8 (of_char c)))) s)"

subsection \<open>Data\<close>

record category_summary =
  cat_id :: string
  cat_name :: string
  cat_slug :: string

record product_summary =
  prod_id :: string
  prod_name :: string
  prod_slug :: string
  prod_brand :: string

record result_set =
  categories :: "category_summary list"
  products :: "product_summary list"

definition empty_results :: result_set where
  "empty_results = \<lparr>categories = [], products = []\<rparr>"

text \<open>
  The body of a response (\<open>res.data\<close> of Axios), as far as the component reads it.
  For the category search only the property \<open>data\<close> is read: \<open>None\<close> stands for a
  missing or falsy \<open>data\<close>. For the product search \<open>data?.products\<close> is read: \<open>None\<close>
  stands for a null or undefined \<open>data\<close>, \<open>Some None\<close> for a missing or falsy \<open>products\<close>.
\<close>

type_synonym category_body = "category_summary list option"
type_synonym product_body = "product_summary list option option"

datatype 'a settled =
    Rejected                \<comment> \<open>the promise of \<open>Axios.get\<close> rejects\<close>
  | Fulfilled "'a option"   \<comment> \<open>it resolves; \<open>None\<close>: the body \<open>res.data\<close> is null or undefined\<close>

datatype kind = Category | Product

datatype call =
    Get string        \<comment> \<open>\<open>Axios.get(url)\<close>\<close>
  | OnClose           \<comment> \<open>the prop \<open>onClose()\<close>\<close>
  | Navigate string   \<comment> \<open>\<open>navigate(path)\<close>\<close>
  | Focus             \<comment> \<open>\<open>inputRef.current.focus()\<close>\<close>

record timer =
  handle :: nat       \<comment> \<open>what \<open>setTimeout\<close> returned\<close>
  due :: nat          \<comment> \<open>the time from which the callback may run\<close>
  captured :: string  \<comment> \<open>the \<open>query\<close> of the render that created the callback\<close>

record fetch =
  fetch_no :: nat        \<comment> \<open>names the cycle in the event that delivers its responses\<close>
  fetch_query :: string  \<comment> \<open>the query the two requests were made for\<close>

record state =
  "open" :: bool                  \<comment> \<open>the prop\<close>
  query :: string
  loading :: bool
  results :: result_set
  error :: string
  debounceTimeout :: "nat option" \<comment> \<open>the ref; \<open>None\<close> is \<open>null\<close>, a handle is always truthy\<close>
  cleanup :: bool                 \<comment> \<open>the last run of the search effect returned its cleanup\<close>
  now :: nat                      \<comment> \<open>the clock, in milliseconds\<close>
  next_handle :: nat
  timers :: "timer list"          \<comment> \<open>scheduled and neither run nor cleared, oldest first\<close>
  next_fetch :: nat
  inflight :: "fetch list"        \<comment> \<open>fetch cycles awaiting \<open>Promise.all\<close>, oldest first\<close>
  calls :: "call list"            \<comment> \<open>the calls made to the outside, oldest first\<close>

subsection \<open>Timers\<close>

definition clearTimeout :: "nat \<Rightarrow> state \<Rightarrow> state" where
  "clearTimeout h s = s\<lparr>timers := filter (\<lambda>t. handle t \<noteq> h) (timers s)\<rparr>"

definition setTimeout :: "string \<Rightarrow> nat \<Rightarrow> state \<Rightarrow> nat \<times> state" where
  \<comment> \<open>Schedules the callback of the search effect, which closes over the query \<open>q\<close>.\<close>
  "setTimeout q delay s =
     (next_handle s,
      s\<lparr>timers := timers s @ [\<lparr>handle = next_handle s, due = now s + delay, captured = q\<rparr>],
        next_handle := Suc (next_handle s)\<rparr>)"

subsection \<open>The timer callback: one fetch cycle\<close>

definition category_url :: "string \<Rightarrow> string" where
  "category_url q = ''/api/category/search?q='' @ encodeURIComponent q"

definition product_url :: "string \<Rightarrow> string" where
  "product_url q = ''/api/product/search?q='' @ encodeURIComponent q @ ''&limit=10''"

definition startFetch :: "string \<Rightarrow> state \<Rightarrow> state" where
  \<comment> \<open>The callback up to its \<open>await\<close>: both requests are made, then the callback waits.\<close>
  "startFetch q s =
     s\<lparr>calls := calls s @ [Get (category_url q), Get (product_url q)],
       inflight := inflight s @ [\<lparr>fetch_no = next_fetch s, fetch_query = q\<rparr>],
       next_fetch := Suc (next_fetch s)\<rparr>"

fun promise_all :: "'a settled \<Rightarrow> 'b settled \<Rightarrow> ('a option \<times> 'b option) option" where
  \<comment> \<open>\<open>None\<close>: \<open>Promise.all\<close> rejects, because one of the two promises does.\<close>
  "promise_all (Fulfilled a) (Fulfilled b) = Some (a, b)"
| "promise_all _ _ = None"

definition read_results :: "category_body option \<Rightarrow> product_body option \<Rightarrow> result_set option" where
  \<comment> \<open>The argument of \<open>setResults\<close>; \<open>None\<close>: reading a property of a null body throws.\<close>
  "read_results catRes prodRes =
     (case catRes of
        None \<Rightarrow> None
      | Some cat_data \<Rightarrow>
          (case prodRes of
             None \<Rightarrow> None
           | Some prod_data \<Rightarrow>
               Some \<lparr>categories = (case cat_data of None \<Rightarrow> [] | Some cs \<Rightarrow> cs),
                     products = (case prod_data of
                                   None \<Rightarrow> []
                                 | Some None \<Rightarrow> []
                                 | Some (Some ps) \<Rightarrow> ps)\<rparr>))"

definition cycle_product :: "category_body settled \<Rightarrow> product_body settled \<Rightarrow> result_set option" where
  \<comment> \<open>What the \<open>try\<close> block hands to \<open>setResults\<close>; \<open>None\<close> when it is left by an exception.\<close>
  "cycle_product c p =
     (case promise_all c p of
        None \<Rightarrow> None
      | Some (catRes, prodRes) \<Rightarrow> read_results catRes prodRes)"

definition finishFetch :: "category_body settled \<Rightarrow> product_body settled \<Rightarrow> state \<Rightarrow> state" where
  \<comment> \<open>The callback from its \<open>await\<close> on: \<open>try\<close>, \<open>catch\<close>, \<open>finally\<close>.\<close>
  "finishFetch c p s =
     (let s1 = (case cycle_product c p of
                  Some r \<Rightarrow> s\<lparr>results := r\<rparr>
                | None \<Rightarrow> s\<lparr>error := ''Search failed.''\<rparr>)
      in s1\<lparr>loading := False\<rparr>)"

subsection \<open>The effects and the state setters\<close>

definition searchCleanup :: "state \<Rightarrow> state" where
  "searchCleanup s = (case debounceTimeout s of Some h \<Rightarrow> clearTimeout h s | None \<Rightarrow> s)"

definition searchEffect :: "state \<Rightarrow> state" where
  \<comment> \<open>The effect on \<open>[query]\<close>.\<close>
  "searchEffect s =
     (if trim (query s) = [] then
        s\<lparr>results := empty_results, error := [], cleanup := False\<rparr>
      else
        let s1 = s\<lparr>loading := True, error := []\<rparr>;
            s2 = (case debounceTimeout s1 of Some h \<Rightarrow> clearTimeout h s1 | None \<Rightarrow> s1);
            (h, s3) = setTimeout (query s2) 350 s2
        in s3\<lparr>debounceTimeout := Some h, cleanup := True\<rparr>)"

definition setQuery :: "string \<Rightarrow> state \<Rightarrow> state" where
  \<comment> \<open>A state update with the same value renders nothing and runs no effect. Otherwise the
      component renders again, the cleanup of the previous run of the search effect runs
      if that run returned one, and the effect runs.\<close>
  "setQuery q s =
     (if q = query s then s
      else
        let s1 = s\<lparr>query := q\<rparr>;
            s2 = (if cleanup s1 then searchCleanup s1 else s1)
        in searchEffect s2)"

definition openEffect :: "state \<Rightarrow> state" where
  \<comment> \<open>The effect on \<open>[open]\<close>. The input is mounted when \<open>open\<close> holds, so the ref is set.
      The three updates are applied together; the one of \<open>query\<close> makes the search effect run.\<close>
  "openEffect s =
     (let s1 = (if open s then s\<lparr>calls := calls s @ [Focus]\<rparr> else s)
      in if \<not> open s1 then setQuery [] (s1\<lparr>results := empty_results, error := []\<rparr>) else s1)"

definition setOpen :: "bool \<Rightarrow> state \<Rightarrow> state" where
  \<comment> \<open>The parent renders the component with another value of the prop.\<close>
  "setOpen b s = (if b = open s then s else openEffect (s\<lparr>open := b\<rparr>))"

subsection \<open>Handlers\<close>

definition handleEscape :: "string \<Rightarrow> state \<Rightarrow> state" where
  \<comment> \<open>The listener is attached exactly while \<open>open\<close> holds.\<close>
  "handleEscape key s =
     (if open s \<and> key = ''Escape'' then s\<lparr>calls := calls s @ [OnClose]\<rparr> else s)"

definition handleResultClick :: "kind \<Rightarrow> string \<Rightarrow> state \<Rightarrow> state" where
  "handleResultClick type slug s =
     (let s1 = s\<lparr>calls := calls s @ [OnClose]\<rparr>
      in case type of
           Category \<Rightarrow> s1\<lparr>calls := calls s1 @ [Navigate (''/category/'' @ slug)]\<rparr>
         | Product \<Rightarrow> s1\<lparr>calls := calls s1 @ [Navigate (''/product/'' @ slug)]\<rparr>)"

subsection \<open>Events\<close>

datatype event =
    Change string       \<comment> \<open>\<open>onChange\<close> of the input, with the new value\<close>
  | SetOpen bool        \<comment> \<open>the parent sets the prop \<open>open\<close>\<close>
  | Elapse nat          \<comment> \<open>so many milliseconds pass\<close>
  | Settle nat "category_body settled" "product_body settled"
                        \<comment> \<open>\<open>Promise.all\<close> of the named fetch cycle settles\<close>
  | KeyDown string
  | ClickClose
  | ClickResult kind string

definition elapse :: "nat \<Rightarrow> state \<Rightarrow> state" where
  \<comment> \<open>The timers that are due run, oldest first; all have the same delay, so this is also
      the order of their due times.\<close>
  "elapse d s =
     (let t = now s + d;
          ready = filter (\<lambda>x. due x \<le> t) (timers s);
          s1 = s\<lparr>now := t, timers := filter (\<lambda>x. \<not> due x \<le> t) (timers s)\<rparr>
      in fold (\<lambda>x. startFetch (captured x)) ready s1)"

definition settle :: "nat \<Rightarrow> category_body settled \<Rightarrow> product_body settled \<Rightarrow> state \<Rightarrow> state" where
  \<comment> \<open>Responses arrive only for a cycle that waits for them.\<close>
  "settle n c p s =
     (if n \<in> set (map fetch_no (inflight s))
      then finishFetch c p (s\<lparr>inflight := filter (\<lambda>f. fetch_no f \<noteq> n) (inflight s)\<rparr>)
      else s)"

fun step :: "state \<Rightarrow> event \<Rightarrow> state" where
  "step s (Change q) = setQuery q s"
| "step s (SetOpen b) = setOpen b s"
| "step s (Elapse d) = elapse d s"
| "step s (Settle n c p) = settle n c p s"
| "step s (KeyDown key) = handleEscape key s"
| "step s ClickClose = s\<lparr>calls := calls s @ [OnClose]\<rparr>"
| "step s (ClickResult type slug) = handleResultClick type slug s"

fun run :: "state \<Rightarrow> event list \<Rightarrow> state" where
  "run s [] = s"
| "run s (e # es) = run (step s e) es"

definition init :: "bool \<Rightarrow> state" where
  \<comment> \<open>The component after mounting with the given value of \<open>open\<close>: the initial values of
      \<open>useState\<close> and \<open>useRef\<close>, after the first run of the effects (which focuses the
      input when open and otherwise stores the initial values again).\<close>
  "init b =
     \<lparr>open = b, query = [], loading = False, results = empty_results, error = [],
      debounceTimeout = None, cleanup = False, now = 0, next_handle = 1, timers = [],
      next_fetch = 0, inflight = [], calls = (if b then [Focus] else [])\<rparr>"

subsection \<open>The view\<close>

datatype row = Row string kind string
  \<comment> \<open>a button: its text and the arguments its \<open>onClick\<close> gives to \<open>handleResultClick\<close>\<close>

datatype node =
    Spinner
  | ErrorText string
  | Categories "row list"
  | Products "row list"
  | NoResults string

definition category_row :: "category_summary \<Rightarrow> row" where
  "category_row cat = Row (cat_name cat) Category (cat_slug cat)"

definition product_row :: "product_summary \<Rightarrow> row" where
  "product_row p = Row (prod_name p @ '' ('' @ prod_brand p @ '')'') Product (prod_slug p)"

definition no_results_text :: "string \<Rightarrow> string" where
  "no_results_text q = ''No results found for '' @ [CHR 0x22] @ q @ [CHR 0x22]"

definition result_area :: "state \<Rightarrow> node list option" where
  \<comment> \<open>The expression \<open>{query && (...)}\<close>: \<open>None\<close> when nothing is rendered for it.\<close>
  "result_area s =
     (if query s \<noteq> [] then
        Some
          ((if loading s then [Spinner] else []) @
           (if \<not> loading s \<and> error s \<noteq> [] then [ErrorText (error s)] else []) @
           (if \<not> loading s \<and> \<not> error s \<noteq> [] then
              (if length (categories (results s)) > 0
               then [Categories (map category_row (categories (results s)))] else []) @
              (if length (products (results s)) > 0
               then [Products (map product_row (products (results s)))] else []) @
              (if length (categories (results s)) = 0 \<and> length (products (results s)) = 0
                  \<and> query s \<noteq> []
               then [NoResults (no_results_text (query s))] else [])
            else []))
      else None)"

record view =
  input_value :: string
  area :: "node list option"

definition render :: "state \<Rightarrow> view option" where
  \<comment> \<open>\<open>None\<close>: the component returns \<open>null\<close>.\<close>
  "render s = (if \<not> open s then None else Some \<lparr>input_value = query s, area = result_area s\<rparr>)"

section \<open>Notions used in the statements\<close>

subsection \<open>Pending timers\<close>

definition single_timer :: "state \<Rightarrow> bool" where
  \<comment> \<open>At most one timer is pending; it is the one the ref holds, it was scheduled for the
      current query, and the search effect that scheduled it returned its cleanup.\<close>
  "single_timer s =
     (case timers s of
        [] \<Rightarrow> True
      | [t] \<Rightarrow> debounceTimeout s = Some (handle t) \<and> cleanup s
               \<and> captured t = query s \<and> trim (query s) \<noteq> []
      | _ \<Rightarrow> False)"

definition fresh_fetches :: "state \<Rightarrow> bool" where
  \<comment> \<open>The waiting fetch cycles have different numbers, all below the next one to be given.\<close>
  "fresh_fetches s =
     (distinct (map fetch_no (inflight s)) \<and>
      list_all (\<lambda>f. fetch_no f < next_fetch s) (inflight s))"

subsection \<open>Typing\<close>



subsection \<open>Events that start no search\<close>

definition quiet :: "event \<Rightarrow> bool" where
  \<comment> \<open>Any event but the input receiving a value that is not empty after trimming.\<close>
  "quiet e = (case e of Change q \<Rightarrow> trim q = [] | _ \<Rightarrow> True)"

definition stuck :: "state \<Rightarrow> bool" where
  \<comment> \<open>\<open>loading\<close> is set although no timer is pending and no fetch cycle awaits a response.\<close>
  "stuck s = (loading s \<and> timers s = [] \<and> inflight s = [])"

subsection \<open>The history of the result set\<close>

text \<open>
  Along a run, fetch cycles complete, with a product (the \<open>try\<close> block reaches
  \<open>setResults\<close>) or without one (it is left by an exception), and the component stores the
  empty result set (the search effect finds the trimmed query empty, or the effect on
  \<open>open\<close> finds the overlay closed). \<open>history\<close> lists these in the order they happen.
\<close>

datatype mark =
    Completed "result_set option"  \<comment> \<open>a fetch cycle completes; \<open>None\<close>: it failed\<close>
  | Cleared                        \<comment> \<open>the component stores the empty result set\<close>

fun mark_of :: "state \<Rightarrow> event \<Rightarrow> mark option" where
  "mark_of s (Settle n c p) =
     (if n \<in> set (map fetch_no (inflight s)) then Some (Completed (cycle_product c p))
      else None)"
| "mark_of s (Change q) = (if q \<noteq> query s \<and> trim q = [] then Some Cleared else None)"
| "mark_of s (SetOpen b) = (if b \<noteq> open s \<and> \<not> b then Some Cleared else None)"
| "mark_of s (Elapse d) = None"
| "mark_of s (KeyDown key) = None"
| "mark_of s ClickClose = None"
| "mark_of s (ClickResult type slug) = None"

fun history :: "state \<Rightarrow> event list \<Rightarrow> mark list" where
  "history s [] = []"
| "history s (e # es) =
     (case mark_of s e of None \<Rightarrow> [] | Some m \<Rightarrow> [m]) @ history (step s e) es"

fun last_cycle :: "mark list \<Rightarrow> result_set option option" where
  \<comment> \<open>The outcome of the fetch cycle that completed last (\<open>Some None\<close>: it failed and has no
      product); \<open>None\<close> when no cycle has completed.\<close>
  "last_cycle [] = None"
| "last_cycle (m # ms) =
     (case last_cycle ms of
        Some outcome \<Rightarrow> Some outcome
      | None \<Rightarrow> (case m of Completed outcome \<Rightarrow> Some outcome | Cleared \<Rightarrow> None))"

fun shown :: "result_set \<Rightarrow> mark list \<Rightarrow> result_set" where
  \<comment> \<open>What the marks leave behind, starting from \<open>r\<close>: a cycle that completes with a product
      leaves the product, one that fails leaves what was there, a clearing leaves the
      empty result set.\<close>
  "shown r [] = r"
| "shown r (Completed (Some r') # ms) = shown r' ms"
| "shown r (Completed None # ms) = shown r ms"
| "shown r (Cleared # ms) = shown empty_results ms"

section \<open>Properties\<close>

lemma fold_startFetch_timers [simp]:
  "timers (fold (\<lambda>x. startFetch (captured x)) ts s) = timers s"
  "debounceTimeout (fold (\<lambda>x. startFetch (captured x)) ts s) = debounceTimeout s"
  "cleanup (fold (\<lambda>x. startFetch (captured x)) ts s) = cleanup s"
  "query (fold (\<lambda>x. startFetch (captured x)) ts s) = query s"
  "loading (fold (\<lambda>x. startFetch (captured x)) ts s) = loading s"
  "results (fold (\<lambda>x. startFetch (captured x)) ts s) = results s"
  "error (fold (\<lambda>x. startFetch (captured x)) ts s) = error s"
  "open (fold (\<lambda>x. startFetch (captured x)) ts s) = open s"
  "now (fold (\<lambda>x. startFetch (captured x)) ts s) = now s"
  "next_handle (fold (\<lambda>x. startFetch (captured x)) ts s) = next_handle s"
  by (induction ts arbitrary: s; simp add: startFetch_def)+

lemma setQuery_same: "setQuery (query s) s = s"
  by (simp add: setQuery_def)

lemma timers_setQuery:
  assumes "single_timer s" "q \<noteq> query s"
  shows "timers (setQuery q s) =
           (if trim q = [] then []
            else [\<lparr>handle = next_handle s, due = now s + 350, captured = q\<rparr>])"
  using assms
  by (auto simp: single_timer_def setQuery_def searchCleanup_def searchEffect_def
      clearTimeout_def setTimeout_def Let_def split: list.splits option.splits)

lemma single_timer_setQuery:
  assumes "single_timer s"
  shows "single_timer (setQuery q s)"
  using assms
  by (auto simp: single_timer_def setQuery_def searchCleanup_def searchEffect_def
      clearTimeout_def setTimeout_def Let_def split: list.splits option.splits)

lemma single_timer_elapse:
  assumes "single_timer s"
  shows "single_timer (elapse d s)"
  using assms
  by (auto simp: single_timer_def elapse_def Let_def split: list.splits)

lemma single_timer_upd [simp]:
  "single_timer (s\<lparr>calls := c\<rparr>) = single_timer s"
  "single_timer (s\<lparr>results := r\<rparr>) = single_timer s"
  "single_timer (s\<lparr>error := e\<rparr>) = single_timer s"
  "single_timer (s\<lparr>loading := l\<rparr>) = single_timer s"
  "single_timer (s\<lparr>open := b\<rparr>) = single_timer s"
  "single_timer (s\<lparr>inflight := fs\<rparr>) = single_timer s"
  by (simp_all add: single_timer_def split: list.splits)

lemma single_timer_setOpen:
  assumes "single_timer s"
  shows "single_timer (setOpen b s)"
  using assms by (simp add: setOpen_def openEffect_def single_timer_setQuery)

lemma single_timer_settle:
  assumes "single_timer s"
  shows "single_timer (settle n c p s)"
  using assms by (simp add: settle_def finishFetch_def Let_def split: option.splits)

lemma single_timer_step:
  assumes "single_timer s"
  shows "single_timer (step s e)"
  using assms
  by (cases e)
    (simp_all add: single_timer_setQuery single_timer_setOpen single_timer_elapse
      single_timer_settle handleEscape_def handleResultClick_def Let_def split: kind.splits)

lemma single_timer_run:
  assumes "single_timer s"
  shows "single_timer (run s es)"
  using assms by (induction es arbitrary: s) (simp_all add: single_timer_step)

lemma single_timer_init: "single_timer (init b)"
  by (simp add: single_timer_def init_def)

lemma setQuery_frame [simp]:
  "calls (setQuery q s) = calls s"
  "inflight (setQuery q s) = inflight s"
  "next_fetch (setQuery q s) = next_fetch s"
  "now (setQuery q s) = now s"
  "open (setQuery q s) = open s"
  "query (setQuery q s) = q"
  by (simp_all add: setQuery_def searchCleanup_def searchEffect_def clearTimeout_def
      setTimeout_def Let_def split: option.splits)

lemma setQuery_loading:
  "loading (setQuery q s) = (if q \<noteq> query s \<and> trim q \<noteq> [] then True else loading s)"
  by (simp add: setQuery_def searchCleanup_def searchEffect_def clearTimeout_def
      setTimeout_def Let_def split: option.splits)

lemma setQuery_results:
  "results (setQuery q s) = (if q \<noteq> query s \<and> trim q = [] then empty_results else results s)"
  by (simp add: setQuery_def searchCleanup_def searchEffect_def clearTimeout_def
      setTimeout_def Let_def split: option.splits)

lemma setQuery_error:
  "error (setQuery q s) = (if q \<noteq> query s then [] else error s)"
  by (simp add: setQuery_def searchCleanup_def searchEffect_def clearTimeout_def
      setTimeout_def Let_def split: option.splits)

lemma elapse_frame [simp]:
  "query (elapse d s) = query s"
  "loading (elapse d s) = loading s"
  "results (elapse d s) = results s"
  "error (elapse d s) = error s"
  "open (elapse d s) = open s"
  "now (elapse d s) = now s + d"
  by (simp_all add: elapse_def Let_def)

lemma elapse_idle:
  assumes "\<forall>t \<in> set (timers s). now s + d < due t"
  shows "elapse d s = s\<lparr>now := now s + d\<rparr>"
proof -
  have "filter (\<lambda>x. due x \<le> now s + d) (timers s) = []"
    using assms by (auto simp: filter_empty_conv)
  moreover have "filter (\<lambda>x. \<not> due x \<le> now s + d) (timers s) = timers s"
    using assms by (auto simp: filter_id_conv)
  ultimately show ?thesis by (simp add: elapse_def Let_def)
qed


lemma run_append: "run s (es @ fs) = run (run s es) fs"
  by (induction es arbitrary: s) simp_all

lemma keystroke_idle:
  assumes "single_timer s" "q \<noteq> query s" "d < 350"
  shows "calls (elapse d (setQuery q s)) = calls s"
    and "inflight (elapse d (setQuery q s)) = inflight s"
    and "next_fetch (elapse d (setQuery q s)) = next_fetch s"
proof -
  have "\<forall>t \<in> set (timers (setQuery q s)). now (setQuery q s) + d < due t"
    using assms by (simp add: timers_setQuery)
  then have "elapse d (setQuery q s) = (setQuery q s)\<lparr>now := now (setQuery q s) + d\<rparr>"
    by (rule elapse_idle)
  then show "calls (elapse d (setQuery q s)) = calls s"
    and "inflight (elapse d (setQuery q s)) = inflight s"
    and "next_fetch (elapse d (setQuery q s)) = next_fetch s"
    by simp_all
qed



subsection \<open>The debounce\<close>



lemma setQuery_blank_timers:
  assumes "timers s = []"
  shows "trim q = [] \<Longrightarrow> timers (setQuery q s) = []"
  using assms
  by (simp add: setQuery_def searchCleanup_def searchEffect_def clearTimeout_def
      Let_def split: option.splits)

lemma elapse_no_timers:
  assumes "timers s = []"
  shows "elapse d s = s\<lparr>now := now s + d\<rparr>"
  using assms by (simp add: elapse_def Let_def)

lemma setOpen_loading: "loading (setOpen b s) = loading s"
  by (simp add: setOpen_def openEffect_def setQuery_loading trim_def)

lemma setOpen_frame [simp]:
  "inflight (setOpen b s) = inflight s"
  "now (setOpen b s) = now s"
  by (simp_all add: setOpen_def openEffect_def)

lemma setOpen_timers:
  assumes "timers s = []"
  shows "timers (setOpen b s) = []"
  using assms by (simp add: setOpen_def openEffect_def setQuery_blank_timers trim_def)

lemma stuck_step:
  assumes "stuck s" "quiet e"
  shows "stuck (step s e)"
proof (cases e)
  case (Change q)
  then show ?thesis
    using assms by (simp add: stuck_def quiet_def setQuery_loading setQuery_blank_timers)
next
  case (SetOpen b)
  then show ?thesis
    using assms by (simp add: stuck_def setOpen_loading setOpen_timers)
next
  case (Elapse d)
  then show ?thesis
    using assms by (simp add: stuck_def elapse_no_timers)
next
  case (Settle n c p)
  then show ?thesis
    using assms by (simp add: stuck_def settle_def)
next
  case (KeyDown key)
  then show ?thesis
    using assms by (simp add: stuck_def handleEscape_def)
next
  case ClickClose
  then show ?thesis
    using assms by (simp add: stuck_def)
next
  case (ClickResult type slug)
  then show ?thesis
    using assms by (simp add: stuck_def handleResultClick_def Let_def split: kind.splits)
qed

lemma stuck_run:
  assumes "stuck s" "list_all quiet es"
  shows "stuck (run s es)"
  using assms by (induction es arbitrary: s) (simp_all add: stuck_step)

lemma keystroke_idle_state:
  assumes "single_timer s" "q \<noteq> query s" "d < 350"
  shows "elapse d (setQuery q s) = (setQuery q s)\<lparr>now := now s + d\<rparr>"
proof -
  have "\<forall>t \<in> set (timers (setQuery q s)). now (setQuery q s) + d < due t"
    using assms by (simp add: timers_setQuery)
  then have "elapse d (setQuery q s) = (setQuery q s)\<lparr>now := now (setQuery q s) + d\<rparr>"
    by (rule elapse_idle)
  then show ?thesis by simp
qed

lemma abandoned_stuck:
  assumes "single_timer s" "inflight s = []" "q \<noteq> query s" "trim q \<noteq> []" "d < 350"
  shows "stuck (run s [Change q, Elapse d, Change []])"
    and "open s \<Longrightarrow> stuck (run s [Change q, Elapse d, SetOpen False])"
proof -
  let ?s1 = "elapse d (setQuery q s)"
  have inv1: "single_timer ?s1"
    using assms(1) by (simp add: single_timer_setQuery single_timer_elapse)
  have q1: "query ?s1 = q" by simp
  have l1: "loading ?s1"
    using assms by (simp add: setQuery_loading)
  have ne: "[] \<noteq> query ?s1"
    using assms(4) by (auto simp: trim_def)
  have t2: "timers (setQuery [] ?s1) = []"
    using inv1 ne by (simp add: timers_setQuery trim_def del: elapse_frame setQuery_frame)
  have l2: "loading (setQuery [] ?s1)"
    using l1 by (simp add: setQuery_loading trim_def)
  have i2: "inflight (setQuery [] ?s1) = []"
    using assms by (simp add: keystroke_idle)
  show "stuck (run s [Change q, Elapse d, Change []])"
    using t2 l2 i2 by (simp add: stuck_def)
  show "stuck (run s [Change q, Elapse d, SetOpen False])" if "open s"
  proof -
    have o1: "open ?s1" using that by simp
    have eq: "setOpen False ?s1 = setQuery [] (?s1\<lparr>open := False, results := empty_results, error := []\<rparr>)"
      using o1 by (simp add: setOpen_def openEffect_def)
    let ?s2 = "?s1\<lparr>open := False, results := empty_results, error := []\<rparr>"
    have inv2: "single_timer ?s2" using inv1 by simp
    have ne2: "[] \<noteq> query ?s2" using ne by simp
    have "timers (setQuery [] ?s2) = []"
      using inv2 ne2 by (simp add: timers_setQuery trim_def del: elapse_frame setQuery_frame)
    moreover have "loading (setQuery [] ?s2)"
      using l1 by (simp add: setQuery_loading trim_def)
    moreover have "inflight (setQuery [] ?s2) = []"
      using assms by (simp add: keystroke_idle)
    ultimately show ?thesis
      by (simp add: stuck_def eq)
  qed
qed

subsection \<open>Further facts about the operations\<close>

lemma finishFetch_loading: "loading (finishFetch c p s) = False"
  by (simp add: finishFetch_def Let_def split: option.splits)

lemma cycle_product_Rejected:
  "cycle_product Rejected p = None" "cycle_product c Rejected = None"
  by (cases c; simp add: cycle_product_def)+

lemma finishFetch_failed:
  assumes "cycle_product c p = None"
  shows "error (finishFetch c p s) = ''Search failed.''"
    and "results (finishFetch c p s) = results s"
  using assms by (simp_all add: finishFetch_def)

lemma finishFetch_succeeded:
  assumes "cycle_product c p = Some r"
  shows "results (finishFetch c p s) = r"
    and "error (finishFetch c p s) = error s"
  using assms by (simp_all add: finishFetch_def)


lemma setOpen_results:
  "results (setOpen b s) = (if b \<noteq> open s \<and> \<not> b then empty_results else results s)"
  by (simp add: setOpen_def openEffect_def setQuery_results trim_def)

lemma settle_results:
  "results (settle n c p s) =
     (if n \<in> set (map fetch_no (inflight s))
      then (case cycle_product c p of Some r \<Rightarrow> r | None \<Rightarrow> results s)
      else results s)"
  by (simp add: settle_def finishFetch_def Let_def split: option.splits)

lemma results_step:
  "results (step s e) =
     (case mark_of s e of
        None \<Rightarrow> results s
      | Some (Completed (Some r)) \<Rightarrow> r
      | Some (Completed None) \<Rightarrow> results s
      | Some Cleared \<Rightarrow> empty_results)"
  by (cases e)
    (auto simp: setQuery_results setOpen_results settle_results handleEscape_def
      handleResultClick_def Let_def split: option.splits kind.splits)

lemma results_run: "results (run s evs) = shown (results s) (history s evs)"
proof (induction evs arbitrary: s)
  case Nil
  then show ?case by simp
next
  case (Cons e evs)
  show ?case
  proof (cases "mark_of s e")
    case None
    then show ?thesis by (simp add: Cons.IH results_step)
  next
    case (Some m)
    show ?thesis
    proof (cases m)
      case (Completed outcome)
      with Some show ?thesis by (cases outcome) (simp_all add: Cons.IH results_step)
    next
      case Cleared
      with Some show ?thesis by (simp add: Cons.IH results_step)
    qed
  qed
qed

lemma fresh_fetches_upd [simp]:
  "fresh_fetches (s\<lparr>calls := c\<rparr>) = fresh_fetches s"
  "fresh_fetches (s\<lparr>results := r\<rparr>) = fresh_fetches s"
  "fresh_fetches (s\<lparr>error := e\<rparr>) = fresh_fetches s"
  "fresh_fetches (s\<lparr>loading := l\<rparr>) = fresh_fetches s"
  "fresh_fetches (s\<lparr>open := b\<rparr>) = fresh_fetches s"
  "fresh_fetches (s\<lparr>now := t\<rparr>) = fresh_fetches s"
  "fresh_fetches (s\<lparr>timers := ts\<rparr>) = fresh_fetches s"
  by (simp_all add: fresh_fetches_def)

lemma fresh_fetches_startFetch:
  assumes "fresh_fetches s"
  shows "fresh_fetches (startFetch q s)"
  using assms
  by (auto simp: fresh_fetches_def startFetch_def list_all_iff less_Suc_eq)

lemma fresh_fetches_fold:
  assumes "fresh_fetches s"
  shows "fresh_fetches (fold (\<lambda>x. startFetch (captured x)) ts s)"
  using assms by (induction ts arbitrary: s) (simp_all add: fresh_fetches_startFetch)

lemma fresh_fetches_elapse:
  assumes "fresh_fetches s"
  shows "fresh_fetches (elapse d s)"
  using assms by (simp add: elapse_def Let_def fresh_fetches_fold)

lemma fresh_fetches_setQuery:
  "fresh_fetches (setQuery q s) = fresh_fetches s"
  by (simp add: fresh_fetches_def)

lemma setOpen_next_fetch [simp]: "next_fetch (setOpen b s) = next_fetch s"
  by (simp add: setOpen_def openEffect_def)

lemma fresh_fetches_setOpen:
  "fresh_fetches (setOpen b s) = fresh_fetches s"
  by (simp add: fresh_fetches_def)

lemma fresh_fetches_settle:
  assumes "fresh_fetches s"
  shows "fresh_fetches (settle n c p s)"
  using assms
  by (auto simp: fresh_fetches_def settle_def finishFetch_def Let_def list_all_iff
      distinct_map_filter split: option.splits)

lemma fresh_fetches_step:
  assumes "fresh_fetches s"
  shows "fresh_fetches (step s e)"
  using assms
  by (cases e)
    (simp_all add: fresh_fetches_setQuery fresh_fetches_setOpen fresh_fetches_elapse
      fresh_fetches_settle handleEscape_def handleResultClick_def Let_def split: kind.splits)

lemma fresh_fetches_run:
  assumes "fresh_fetches s"
  shows "fresh_fetches (run s es)"
  using assms by (induction es arbitrary: s) (simp_all add: fresh_fetches_step)

lemma fresh_fetches_init: "fresh_fetches (init b)"
  by (simp add: fresh_fetches_def init_def)

lemma late_response_wins:
  assumes "fresh_fetches s" "inflight s = fs1 @ f1 # fs2 @ f2 # fs3"
    and "cycle_product c1 p1 = Some r1" "cycle_product c2 p2 = Some r2"
  shows "results (settle (fetch_no f2) c2 p2 s) = r2"
    and "results (settle (fetch_no f1) c1 p1 (settle (fetch_no f2) c2 p2 s)) = r1"
proof -
  have ne: "fetch_no f1 \<noteq> fetch_no f2"
    using assms(1,2) by (auto simp: fresh_fetches_def)
  have in2: "fetch_no f2 \<in> set (map fetch_no (inflight s))"
    using assms(2) by simp
  show "results (settle (fetch_no f2) c2 p2 s) = r2"
    using in2 assms(4) by (simp add: settle_results)
  have "inflight (settle (fetch_no f2) c2 p2 s) =
          filter (\<lambda>f. fetch_no f \<noteq> fetch_no f2) (inflight s)"
    using in2 by (simp add: settle_def finishFetch_def Let_def split: option.splits)
  then have "fetch_no f1 \<in> set (map fetch_no (inflight (settle (fetch_no f2) c2 p2 s)))"
    using ne assms(2) by simp
  then show "results (settle (fetch_no f1) c1 p1 (settle (fetch_no f2) c2 p2 s)) = r1"
    using assms(3) by (simp add: settle_results)
qed

subsection \<open>The end of a fetch cycle\<close>

text \<open>
  Claim C2. When the responses of a waiting fetch cycle arrive, \<open>loading\<close> becomes false
  whatever they are: the \<open>finally\<close> block runs on every way out of the \<open>try\<close>. When either
  of the two lookups is rejected, \<open>error\<close> becomes exactly \<open>Search failed.\<close> and \<open>results\<close>
  keeps the value it had.
\<close>

theorem failed_lookup_sets_error:
  assumes "n \<in> set (map fetch_no (inflight s))"
  shows "loading (step s (Settle n c p)) = False \<and>
         (c = Rejected \<or> p = Rejected \<longrightarrow>
            error (step s (Settle n c p)) = ''Search failed.'' \<and>
            results (step s (Settle n c p)) = results s)"
proof -
  let ?s = "s\<lparr>inflight := filter (\<lambda>f. fetch_no f \<noteq> n) (inflight s)\<rparr>"
  have eq: "step s (Settle n c p) = finishFetch c p ?s"
    using assms by (simp add: settle_def)
  have "cycle_product c p = None" if "c = Rejected \<or> p = Rejected"
    using that by (auto simp: cycle_product_Rejected)
  then show ?thesis
    unfolding eq by (simp add: finishFetch_loading finishFetch_failed)
qed

theorem failed_lookup_sets_error_witness:
  "0 \<in> set (map fetch_no (inflight (run (init True) [Change ''a'', Elapse 350]))) \<and>
   loading (run (init True) [Change ''a'', Elapse 350]) \<and>
   loading (run (init True) [Change ''a'', Elapse 350, Settle 0 Rejected (Fulfilled (Some (Some (Some []))))]) = False \<and>
   error (run (init True) [Change ''a'', Elapse 350, Settle 0 Rejected (Fulfilled (Some (Some (Some []))))]) = ''Search failed.''"
proof -
  let ?s = "run (init True) [Change ''a'', Elapse 350]"
  have h: "0 \<in> set (map fetch_no (inflight ?s))" by code_simp
  have l: "loading ?s" by code_simp
  have r: "run (init True) [Change ''a'', Elapse 350, Settle 0 Rejected (Fulfilled (Some (Some (Some []))))]
           = step ?s (Settle 0 Rejected (Fulfilled (Some (Some (Some [])))))"
    by simp
  show ?thesis
    unfolding r
    using h l failed_lookup_sets_error [OF h, of Rejected "Fulfilled (Some (Some (Some [])))"]
    by blast
qed

subsection \<open>The result set and the order of the responses\<close>

text \<open>
  Claim C3, as stated, fails: \<open>results\<close> is not always the product of the fetch cycle that
  completed last. The component also stores the empty result set when the query becomes
  empty after trimming and when the overlay closes: after a cycle has completed with one
  category and the input has been emptied, \<open>results\<close> is empty. And a cycle that fails
  leaves \<open>results\<close> alone: after a first cycle has completed with one category and a second
  one has failed, \<open>results\<close> still is the product of the first, though the cycle that
  completed last has none.
\<close>

theorem results_counterexample:
  "last_cycle (history (init True) [Change ''a'', Elapse 350,
      Settle 0 (Fulfilled (Some (Some [\<lparr>cat_id = ''1'', cat_name = ''Apples'', cat_slug = ''apples''\<rparr>])))
               (Fulfilled (Some (Some (Some [])))),
      Change []]) =
     Some (Some \<lparr>categories = [\<lparr>cat_id = ''1'', cat_name = ''Apples'', cat_slug = ''apples''\<rparr>],
                 products = []\<rparr>) \<and>
   results (run (init True) [Change ''a'', Elapse 350,
      Settle 0 (Fulfilled (Some (Some [\<lparr>cat_id = ''1'', cat_name = ''Apples'', cat_slug = ''apples''\<rparr>])))
               (Fulfilled (Some (Some (Some [])))),
      Change []]) = \<lparr>categories = [], products = []\<rparr> \<and>
   last_cycle (history (init True) [Change ''a'', Elapse 350,
      Settle 0 (Fulfilled (Some (Some [\<lparr>cat_id = ''1'', cat_name = ''Apples'', cat_slug = ''apples''\<rparr>])))
               (Fulfilled (Some (Some (Some [])))),
      Change ''ab'', Elapse 350, Settle 1 Rejected Rejected]) = Some None \<and>
   results (run (init True) [Change ''a'', Elapse 350,
      Settle 0 (Fulfilled (Some (Some [\<lparr>cat_id = ''1'', cat_name = ''Apples'', cat_slug = ''apples''\<rparr>])))
               (Fulfilled (Some (Some (Some [])))),
      Change ''ab'', Elapse 350, Settle 1 Rejected Rejected]) =
     \<lparr>categories = [\<lparr>cat_id = ''1'', cat_name = ''Apples'', cat_slug = ''apples''\<rparr>], products = []\<rparr>"
  by code_simp

text \<open>
  The amended claim C3. In every state the component can reach, \<open>results\<close> is the product of
  the fetch cycle that completed last with a product (a cycle that fails leaves it as it
  is), unless the result set has been cleared since, and then it is empty. Cycles complete
  in the order their responses arrive, not in the order they were started: when two cycles
  wait and the responses of the later one arrive first, the responses of the earlier one
  overwrite them.
\<close>

theorem results_of_last_completion_or_clearing:
  assumes "s = run (init b) evs"
  shows "results s = shown empty_results (history (init b) evs) \<and>
         (inflight s = fs1 @ f1 # fs2 @ f2 # fs3 \<and>
          cycle_product c1 p1 = Some r1 \<and> cycle_product c2 p2 = Some r2 \<longrightarrow>
            results (step s (Settle (fetch_no f2) c2 p2)) = r2 \<and>
            results (run s [Settle (fetch_no f2) c2 p2, Settle (fetch_no f1) c1 p1]) = r1)"
proof -
  have "results (init b) = empty_results" by (simp add: init_def)
  then have a: "results s = shown empty_results (history (init b) evs)"
    unfolding assms by (simp add: results_run)
  have fresh: "fresh_fetches s"
    unfolding assms by (rule fresh_fetches_run [OF fresh_fetches_init])
  have b: "results (step s (Settle (fetch_no f2) c2 p2)) = r2 \<and>
            results (run s [Settle (fetch_no f2) c2 p2, Settle (fetch_no f1) c1 p1]) = r1"
    if "inflight s = fs1 @ f1 # fs2 @ f2 # fs3" "cycle_product c1 p1 = Some r1"
      "cycle_product c2 p2 = Some r2"
    using late_response_wins [OF fresh that] by simp
  from a b show ?thesis by blast
qed

theorem results_of_last_completion_or_clearing_witness:
  "inflight (run (init True) [Change ''a'', Elapse 350, Change ''ab'', Elapse 350]) =
     [] @ \<lparr>fetch_no = 0, fetch_query = ''a''\<rparr> # [] @ \<lparr>fetch_no = 1, fetch_query = ''ab''\<rparr> # [] \<and>
   query (run (init True) [Change ''a'', Elapse 350, Change ''ab'', Elapse 350]) = ''ab'' \<and>
   results (run (run (init True) [Change ''a'', Elapse 350, Change ''ab'', Elapse 350])
      [Settle 1 (Fulfilled (Some (Some [\<lparr>cat_id = ''2'', cat_name = ''Abacus'', cat_slug = ''abacus''\<rparr>])))
                (Fulfilled (Some (Some (Some [])))),
       Settle 0 (Fulfilled (Some (Some [\<lparr>cat_id = ''1'', cat_name = ''Apples'', cat_slug = ''apples''\<rparr>])))
                (Fulfilled (Some (Some (Some []))))]) =
     \<lparr>categories = [\<lparr>cat_id = ''1'', cat_name = ''Apples'', cat_slug = ''apples''\<rparr>], products = []\<rparr>"
proof -
  let ?s = "run (init True) [Change ''a'', Elapse 350, Change ''ab'', Elapse 350]"
  let ?f1 = "\<lparr>fetch_no = 0, fetch_query = ''a''\<rparr>"
  let ?f2 = "\<lparr>fetch_no = 1, fetch_query = ''ab''\<rparr>"
  let ?c1 = "Fulfilled (Some (Some [\<lparr>cat_id = ''1'', cat_name = ''Apples'', cat_slug = ''apples''\<rparr>])) :: category_body settled"
  let ?c2 = "Fulfilled (Some (Some [\<lparr>cat_id = ''2'', cat_name = ''Abacus'', cat_slug = ''abacus''\<rparr>])) :: category_body settled"
  let ?p = "Fulfilled (Some (Some (Some []))) :: product_body settled"
  let ?r1 = "\<lparr>categories = [\<lparr>cat_id = ''1'', cat_name = ''Apples'', cat_slug = ''apples''\<rparr>], products = []\<rparr>"
  let ?r2 = "\<lparr>categories = [\<lparr>cat_id = ''2'', cat_name = ''Abacus'', cat_slug = ''abacus''\<rparr>], products = []\<rparr>"
  have h1: "inflight ?s = [] @ ?f1 # [] @ ?f2 # []" by code_simp
  have h2: "cycle_product ?c1 ?p = Some ?r1" by code_simp
  have h3: "cycle_product ?c2 ?p = Some ?r2" by code_simp
  have q: "query ?s = ''ab''" by code_simp
  note T = results_of_last_completion_or_clearing [OF refl, where b = True
      and evs = "[Change ''a'', Elapse 350, Change ''ab'', Elapse 350]"
      and ?fs1.0 = "[]" and ?f1.0 = ?f1 and ?fs2.0 = "[]" and ?f2.0 = ?f2 and ?fs3.0 = "[]"
      and ?c1.0 = ?c1 and ?p1.0 = ?p and ?r1.0 = ?r1 and ?c2.0 = ?c2 and ?p2.0 = ?p and ?r2.0 = ?r2]
  have "results (run ?s [Settle (fetch_no ?f2) ?c2 ?p, Settle (fetch_no ?f1) ?c1 ?p]) = ?r1"
    by (rule T [THEN conjunct2, THEN mp, OF conjI [OF h1 conjI [OF h2 h3]], THEN conjunct2])
  then have "results (run ?s [Settle 1 ?c2 ?p, Settle 0 ?c1 ?p]) = ?r1"
    by (simp only: fetch.select_convs)
  then show ?thesis
    by (intro conjI h1 q)
qed

subsection \<open>A query that is empty after trimming\<close>



subsection \<open>Selecting a result\<close>

text \<open>
  Claim C5. Selecting a result row calls \<open>onClose\<close> and then \<open>navigate\<close>, in this order and
  in every state: with \<open>/category/\<close> followed by the slug for a category, with \<open>/product/\<close>
  followed by the slug for a product. Nothing else is called, and neither call is skipped.
\<close>

theorem result_click_closes_then_navigates:
  "calls (step s (ClickResult Category slug)) = calls s @ [OnClose, Navigate (''/category/'' @ slug)] \<and>
   calls (step s (ClickResult Product slug)) = calls s @ [OnClose, Navigate (''/product/'' @ slug)] \<and>
   calls (handleResultClick type slug s) =
     calls s @ [OnClose, Navigate ((case type of Category \<Rightarrow> ''/category/'' | Product \<Rightarrow> ''/product/'') @ slug)]"
  by (simp add: handleResultClick_def Let_def split: kind.splits)

subsection \<open>The result area\<close>




subsection \<open>Closing the overlay\<close>

text \<open>
  Claim C7. When the prop \<open>open\<close> goes from true to false, \<open>query\<close> becomes the empty string,
  \<open>results\<close> the empty result set and \<open>error\<close> the empty string.
\<close>

theorem close_resets_state:
  assumes "open s"
  shows "query (step s (SetOpen False)) = [] \<and>
         results (step s (SetOpen False)) = empty_results \<and>
         error (step s (SetOpen False)) = []"
  using assms
  by (simp add: setOpen_def openEffect_def setQuery_results setQuery_error trim_def)

theorem close_resets_state_witness:
  "open (run (init True) [Change ''a'', Elapse 350, Settle 0 Rejected Rejected, Change ''ab'']) \<and>
   query (run (init True) [Change ''a'', Elapse 350, Settle 0 Rejected Rejected, Change ''ab'', SetOpen False]) = [] \<and>
   results (run (init True) [Change ''a'', Elapse 350, Settle 0 Rejected Rejected, Change ''ab'', SetOpen False]) = empty_results \<and>
   error (run (init True) [Change ''a'', Elapse 350, Settle 0 Rejected Rejected, Change ''ab'', SetOpen False]) = []"
proof -
  let ?s = "run (init True) [Change ''a'', Elapse 350, Settle 0 Rejected Rejected, Change ''ab'']"
  have h: "open ?s" by code_simp
  have r: "run (init True) [Change ''a'', Elapse 350, Settle 0 Rejected Rejected, Change ''ab'', SetOpen False]
           = step ?s (SetOpen False)"
    by simp
  show ?thesis
    unfolding r using h close_resets_state [OF h] by blast
qed

subsection \<open>The two requests\<close>



subsection \<open>White space in the input\<close>

text \<open>
  Claim C9, as stated, fails: after a query of white space only, the message that nothing
  was found is not shown while \<open>loading\<close> is set, and the search effect does not touch
  \<open>loading\<close> on this path. Typing \<open>a\<close> and replacing it by a blank leaves the spinner,
  whether the timer for \<open>a\<close> has run by then or not.
\<close>

theorem blank_query_counterexample:
  "query (run (init True) [Change ''a'', Change '' '']) = '' '' \<and>
   trim (query (run (init True) [Change ''a'', Change '' ''])) = [] \<and>
   calls (run (init True) [Change ''a'', Change '' '']) = [Focus] \<and>
   results (run (init True) [Change ''a'', Change '' '']) = empty_results \<and>
   result_area (run (init True) [Change ''a'', Change '' '']) = Some [Spinner] \<and>
   query (run (init True) [Change ''a'', Elapse 350, Change '' '']) = '' '' \<and>
   result_area (run (init True) [Change ''a'', Elapse 350, Change '' '']) = Some [Spinner]"
  by code_simp

text \<open>
  The amended claim C9. When the query changes to a value that is not empty but is empty
  after trimming, the result area is rendered, no request is made and \<open>results\<close> is cleared;
  and when \<open>loading\<close> was false, the result area is the message that nothing was found,
  quoting the query of white space.
\<close>

theorem blank_query_result_area:
  assumes "q \<noteq> []" "trim q = []" "q \<noteq> query s"
  shows "result_area (step s (Change q)) \<noteq> None \<and>
         calls (step s (Change q)) = calls s \<and>
         results (step s (Change q)) = empty_results \<and>
         (\<not> loading s \<longrightarrow>
            result_area (step s (Change q)) =
              Some [NoResults (''No results found for '' @ [CHR 0x22] @ q @ [CHR 0x22])])"
  using assms
  by (simp add: result_area_def no_results_text_def setQuery_results setQuery_error
      setQuery_loading empty_results_def)

theorem blank_query_result_area_witness:
  "'' '' \<noteq> [] \<and> trim '' '' = [] \<and> '' '' \<noteq> query (init True) \<and> \<not> loading (init True) \<and>
   calls (step (init True) (Change '' '')) = calls (init True) \<and>
   result_area (step (init True) (Change '' '')) =
     Some [NoResults (''No results found for '' @ [CHR 0x22] @ '' '' @ [CHR 0x22])]"
proof -
  have h1: "'' '' \<noteq> []" by simp
  have h2: "trim '' '' = []" by code_simp
  have h3: "'' '' \<noteq> query (init True)" by (simp add: init_def)
  have h4: "\<not> loading (init True)" by (simp add: init_def)
  note T = blank_query_result_area [OF h1 h2 h3]
  show ?thesis
    by (intro conjI h1 h2 h3 h4 T [THEN conjunct2, THEN conjunct1]
        T [THEN conjunct2, THEN conjunct2, THEN conjunct2, THEN mp, OF h4])
qed

subsection \<open>The loading flag\<close>

text \<open>
  Claim C10. In every state the component can reach, a change of the prop \<open>open\<close> leaves
  \<open>loading\<close> as it is, and so does a change of the query to a value that is empty after
  trimming. Hence, when no fetch cycle is waiting, a query that is not empty after trimming
  is entered, and within less than 350 milliseconds the query is emptied or the overlay is
  closed, then \<open>loading\<close> is set, no timer is pending and no fetch cycle is waiting; and this
  stays so through every further sequence of events in which the input receives no value
  that is not empty after trimming.
\<close>

theorem loading_never_reset:
  assumes "s = run (init b) evs"
  shows "loading (step s (SetOpen b')) = loading s \<and>
         (trim q' = [] \<longrightarrow> loading (step s (Change q')) = loading s) \<and>
         (inflight s = [] \<and> q \<noteq> query s \<and> trim q \<noteq> [] \<and> d < 350 \<and> list_all quiet rest \<longrightarrow>
            stuck (run s ([Change q, Elapse d, Change []] @ rest)) \<and>
            (open s \<longrightarrow> stuck (run s ([Change q, Elapse d, SetOpen False] @ rest))))"
proof -
  have inv: "single_timer s"
    unfolding assms by (rule single_timer_run [OF single_timer_init])
  have a: "loading (step s (SetOpen b')) = loading s"
    by (simp add: setOpen_loading)
  have b: "loading (step s (Change q')) = loading s" if "trim q' = []"
    using that by (simp add: setQuery_loading)
  have c: "stuck (run s ([Change q, Elapse d, Change []] @ rest))"
    if "inflight s = []" "q \<noteq> query s" "trim q \<noteq> []" "d < 350" "list_all quiet rest"
    unfolding run_append
    using abandoned_stuck(1) [OF inv that(1-4)] that(5) by (rule stuck_run)
  have d: "stuck (run s ([Change q, Elapse d, SetOpen False] @ rest))"
    if "inflight s = []" "q \<noteq> query s" "trim q \<noteq> []" "d < 350" "list_all quiet rest" "open s"
    unfolding run_append
    using abandoned_stuck(2) [OF inv that(1-4) that(6)] that(5) by (rule stuck_run)
  from a b c d show ?thesis by blast
qed

theorem loading_never_reset_witness:
  "inflight (init True) = [] \<and> ''a'' \<noteq> query (init True) \<and> trim ''a'' \<noteq> [] \<and>
   list_all quiet [Elapse 1000, Change '' '', SetOpen False, Elapse 1000] \<and>
   stuck (run (init True) [Change ''a'', Elapse 349, Change [], Elapse 1000, Change '' '', SetOpen False, Elapse 1000]) \<and>
   stuck (run (init True) [Change ''a'', Elapse 349, SetOpen False, Elapse 1000, Change '' '', SetOpen False, Elapse 1000])"
proof -
  let ?s = "run (init True) []"
  let ?rest = "[Elapse 1000, Change '' '', SetOpen False, Elapse 1000]"
  have s: "?s = init True" by (simp only: run.simps)
  have h1: "inflight ?s = []" by (simp add: init_def)
  have h2: "''a'' \<noteq> query ?s" by (simp add: init_def)
  have h3: "trim ''a'' \<noteq> []" by code_simp
  have h4: "list_all quiet ?rest" by code_simp
  have h5: "open ?s" by (simp add: init_def)
  have h6: "(349 :: nat) < 350" by simp
  note T = loading_never_reset [OF refl, where b = True and evs = "[]" and q = "''a''"
      and d = 349 and rest = ?rest]
  have c: "inflight ?s = [] \<and> ''a'' \<noteq> query ?s \<and> trim ''a'' \<noteq> [] \<and> (349 :: nat) < 350
           \<and> list_all quiet ?rest"
    by (intro conjI h1 h2 h3 h4 h6)
  from T [THEN conjunct2, THEN conjunct2, THEN mp, OF c]
  have st: "stuck (run ?s ([Change ''a'', Elapse 349, Change []] @ ?rest)) \<and>
            (open ?s \<longrightarrow> stuck (run ?s ([Change ''a'', Elapse 349, SetOpen False] @ ?rest)))" .
  have a: "stuck (run ?s ([Change ''a'', Elapse 349, Change []] @ ?rest))"
    by (rule st [THEN conjunct1])
  have b: "stuck (run ?s ([Change ''a'', Elapse 349, SetOpen False] @ ?rest))"
    by (rule st [THEN conjunct2, THEN mp, OF h5])
  show ?thesis
    using a b h1 h2 h3 h4 by (simp only: s append.simps simp_thms)
qed

end
